theory Spec2Isabelle
  imports Complex_Main "HOL-Library.Sublist"
begin

section \<open>Shallow embedding of \<open>src/api/youtube_shorts_api.py\<close>\<close>

text \<open>
  The three stages of \<open>YouTubeShortsProcessor\<close> (\<open>download_video\<close>,
  \<open>convert_to_shorts_format\<close>, \<open>upload_video\<close>), \<open>authenticate_youtube\<close> and the
  \<open>/api/upload\<close> route are modelled as total functions. Everything a stage does to the
  outside world (the progress callback, moviepy, pytube, urllib, the Google client) is
  recorded, in program order, in a list of \<open>call\<close>s; what the outside world answers is
  an explicit argument (an \<open>env\<close> record). A Python exception is its message
  (\<open>str(e)\<close>), and an external call that may raise answers \<open>exn + 'a\<close>.

  A Python float is the rational it denotes. In the crop computation every float
  operation is exact (\<open>9/16\<close> and \<open>/ 2\<close> are binary fractions, and the products and
  quotients taken of them are exact for every frame dimension below \<open>2 ^ 48\<close>), so it is
  written with rational arithmetic, \<open>0.1\<close> read as \<open>1/10\<close>. In the progress computation of
  \<open>upload_video\<close> the rounding of each operation decides the result, so each operation is
  rounded to the nearest double (\<open>to_double\<close>).
\<close>

subsection \<open>Python values\<close>

type_synonym exn = string

text \<open>\<open>int(x)\<close> on a float: truncation towards zero.\<close>

definition py_int :: "rat \<Rightarrow> int" where
  "py_int x = (if 0 \<le> x then \<lfloor>x\<rfloor> else \<lceil>x\<rceil>)"

text \<open>
  IEEE 754 double precision: \<open>to_double x\<close> is the double nearest to \<open>x\<close>, ties to the
  even significand. \<open>binary_exponent x\<close> is the \<open>e\<close> with \<open>2 ^ e \<le> x < 2 ^ (e + 1)\<close>, the
  significand has 53 bits. Overflow and subnormal numbers are left out: no value here
  is near either.
\<close>

fun ilog2 :: "nat \<Rightarrow> nat" where
  "ilog2 n = (if n < 2 then 0 else Suc (ilog2 (n div 2)))"

declare ilog2.simps [simp del]

definition binary_exponent :: "rat \<Rightarrow> int" where
  "binary_exponent x =
     (if 1 \<le> x then int (ilog2 (nat \<lfloor>x\<rfloor>))
      else let n = nat \<lceil>1 / x\<rceil> in if n \<le> 1 then 0 else - int (Suc (ilog2 (n - 1))))"

definition pow2 :: "int \<Rightarrow> rat" where
  "pow2 k = (if 0 \<le> k then 2 ^ nat k else 1 / 2 ^ nat (- k))"

definition nearest_even :: "rat \<Rightarrow> int" where
  "nearest_even x =
     (let f = \<lfloor>x\<rfloor>; r = x - of_int f in
      if r < 1 / 2 then f else if r > 1 / 2 then f + 1 else if even f then f else f + 1)"

definition to_double :: "rat \<Rightarrow> rat" where
  "to_double x =
     (if x = 0 then 0
      else let a = \<bar>x\<bar>; u = pow2 (binary_exponent a - 52);
               m = of_int (nearest_even (a / u)) * u
           in if x < 0 then - m else m)"

text \<open>\<open>str(n)\<close> and \<open>f"{n}"\<close> for an integer: its decimal digits.\<close>

definition digit_char :: "nat \<Rightarrow> char" where
  "digit_char d = ''0123456789'' ! d"

fun str_nat :: "nat \<Rightarrow> string" where
  "str_nat n = (if n < 10 then [digit_char n] else str_nat (n div 10) @ [digit_char (n mod 10)])"

declare str_nat.simps [simp del]

definition str_int :: "int \<Rightarrow> string" where
  "str_int i = (if i < 0 then CHR ''-'' # str_nat (nat (- i)) else str_nat (nat i))"



text \<open>\<open>needle in haystack\<close> on strings.\<close>

fun py_in :: "string \<Rightarrow> string \<Rightarrow> bool" where
  "py_in needle [] = (needle = [])"
| "py_in needle (c # cs) = (prefix needle (c # cs) \<or> py_in needle cs)"

text \<open>\<open>os.path.basename\<close> and \<open>os.path.join\<close> with a relative second component (POSIX).\<close>

definition basename :: "string \<Rightarrow> string" where
  "basename p = rev (takeWhile (\<lambda>c. c \<noteq> CHR ''/'') (rev p))"

definition path_join :: "string \<Rightarrow> string \<Rightarrow> string" where
  "path_join d f = (if f \<noteq> [] \<and> hd f = CHR ''/'' then f else d @ ''/'' @ f)"

definition UPLOAD_FOLDER :: string where
  "UPLOAD_FOLDER = ''uploads''"

definition PROCESSED_FOLDER :: string where
  "PROCESSED_FOLDER = ''processed''"

subsection \<open>The outside world\<close>

text \<open>
  A moviepy clip, as far as the program reads it: \<open>clip.duration\<close> and \<open>clip.size\<close>.
  \<open>subclip\<close> and \<open>crop\<close> are moviepy's: \<open>subclip(t0, t1)\<close> plays from \<open>t0\<close> to \<open>t1\<close>,
  \<open>crop(x1, y1, x2, y2)\<close> keeps the pixels \<open>[int(y1):int(y2), int(x1):int(x2)]\<close> of each frame.
\<close>

record clip =
  duration :: rat
  clip_size :: "int \<times> int"

definition subclip :: "clip \<Rightarrow> rat \<Rightarrow> rat \<Rightarrow> clip" where
  "subclip c t0 t1 = c\<lparr>duration := t1 - t0\<rparr>"

definition crop :: "clip \<Rightarrow> rat \<Rightarrow> rat \<Rightarrow> rat \<Rightarrow> rat \<Rightarrow> clip" where
  "crop c x1 y1 x2 y2 = c\<lparr>clip_size := (py_int x2 - py_int x1, py_int y2 - py_int y1)\<rparr>"

text \<open>The request body \<open>upload_video\<close> hands to \<open>videos().insert\<close>.\<close>

record insert_body =
  snippet_title :: string
  snippet_description :: string
  snippet_tags :: "string list"
  snippet_categoryId :: string
  status_privacyStatus :: string

text \<open>OAuth credentials as \<open>authenticate_youtube\<close> reads them.\<close>

record creds =
  token :: string
  valid :: bool
  expired :: bool
  refresh_token :: "string option"

datatype service = Service creds

text \<open>Every call that leaves the program, in the order the program makes it.\<close>

datatype call =
    Callback rat string
  | VideoFileClip string
  | Subclip rat rat
  | Crop rat rat rat rat
  | WriteVideofile clip string
  | Close
  | YouTubeStreams string
  | StreamDownload string
  | UrlRetrieve string string
  | MediaFileUpload string
  | VideosInsert insert_body
  | NextChunk
  | JsonLoads string
  | Refresh creds
  | RunLocalServer
  | Build creds

text \<open>\<open>if progress_callback: progress_callback(percent, message)\<close>\<close>

definition emit :: "bool \<Rightarrow> rat \<Rightarrow> string \<Rightarrow> call list" where
  "emit cb percent message = (if cb then [Callback percent message] else [])"

fun progress_events :: "call list \<Rightarrow> (rat \<times> string) list" where
  "progress_events [] = []"
| "progress_events (Callback p m # tr) = (p, m) # progress_events tr"
| "progress_events (c # tr) = progress_events tr"

subsection \<open>\<open>convert_to_shorts_format\<close>\<close>

definition target_aspect_ratio :: rat where
  "target_aspect_ratio = 9 / 16"

text \<open>
  Lines 117--139: the crop the stage asks moviepy for. \<open>Inl\<close> is the
  \<open>ZeroDivisionError\<close> of \<open>width/height\<close>, \<open>Inr None\<close> is no crop.
\<close>

definition crop_args :: "int \<Rightarrow> int \<Rightarrow> exn + (rat \<times> rat \<times> rat \<times> rat) option" where
  "crop_args width height =
     (if height = 0 then Inl ''division by zero''
      else
        let current_aspect_ratio = of_int width / of_int height in
        if \<bar>current_aspect_ratio - target_aspect_ratio\<bar> > 1 / 10 then
          if current_aspect_ratio > target_aspect_ratio then
            let new_width = py_int (of_int height * target_aspect_ratio);
                x_center = of_int width / 2;
                crop_x1 = x_center - of_int new_width / 2;
                crop_x2 = x_center + of_int new_width / 2
            in Inr (Some (crop_x1, 0, crop_x2, of_int height))
          else
            let new_height = py_int (of_int width / target_aspect_ratio);
                y_center = of_int height / 2;
                crop_y1 = y_center - of_int new_height / 2;
                crop_y2 = y_center + of_int new_height / 2
            in Inr (Some (0, crop_y1, of_int width, crop_y2))
        else Inr None)"

text \<open>
  What moviepy answers: \<open>load\<close> is \<open>VideoFileClip(video_path)\<close>, \<open>write_videofile\<close> is
  \<open>clip.write_videofile(...)\<close> (\<open>None\<close>: it returned).
\<close>

record convert_env =
  load :: "exn + clip"
  write_videofile :: "exn option"

text \<open>The \<open>except Exception as e\<close> handler of the stage.\<close>

definition convert_except :: "bool \<Rightarrow> call list \<Rightarrow> exn \<Rightarrow> call list \<times> string option" where
  "convert_except cb tr e = (tr @ emit cb 0 (''Error: '' @ e), None)"

definition convert_to_shorts_format ::
  "convert_env \<Rightarrow> string \<Rightarrow> bool \<Rightarrow> call list \<times> string option" where
  "convert_to_shorts_format env video_path cb =
     (let tr1 = emit cb 10 ''Loading video...'' @ [VideoFileClip video_path] in
      case load env of
        Inl e \<Rightarrow> convert_except cb tr1 e
      | Inr clip0 \<Rightarrow>
          let tr2 = tr1 @ emit cb 30 ''Checking duration...'';
              (clip1, tr3) =
                (if duration clip0 > 60 then (subclip clip0 0 60, tr2 @ [Subclip 0 60])
                 else (clip0, tr2));
              tr4 = tr3 @ emit cb 50 ''Checking aspect ratio...'';
              (width, height) = clip_size clip1
          in case crop_args width height of
               Inl e \<Rightarrow> convert_except cb tr4 e
             | Inr box \<Rightarrow>
                 let (clip2, tr5) =
                       (case box of
                          None \<Rightarrow> (clip1, tr4)
                        | Some (x1, y1, x2, y2) \<Rightarrow>
                            (crop clip1 x1 y1 x2 y2, tr4 @ [Crop x1 y1 x2 y2]));
                     filename = basename video_path;
                     output_path = path_join PROCESSED_FOLDER (''shorts_'' @ filename);
                     tr6 = tr5 @ emit cb 70 ''Rendering video...''
                            @ [WriteVideofile clip2 output_path]
                 in case write_videofile env of
                      Some e \<Rightarrow> convert_except cb tr6 e
                    | None \<Rightarrow>
                        (tr6 @ [Close] @ emit cb 100 ''Conversion complete!'',
                         Some output_path))"

subsection \<open>\<open>download_video\<close>\<close>

text \<open>
  What pytube, the clock and urllib answer. \<open>yt_first_stream\<close> is
  \<open>YouTube(url).streams.filter(...).order_by('resolution').desc().first()\<close>: it raises, or
  returns \<open>None\<close>, or a stream; \<open>download\<close> is that stream's
  \<open>download(output_path=UPLOAD_FOLDER)\<close>; \<open>now\<close> is \<open>time.time()\<close>; \<open>urlretrieve\<close> is
  \<open>urllib.request.urlretrieve(url, video_name)\<close> (\<open>None\<close>: it returned).
\<close>

record stream =
  download :: "exn + string"

record download_env =
  yt_first_stream :: "exn + stream option"
  now :: rat
  urlretrieve :: "exn option"

definition download_except :: "bool \<Rightarrow> call list \<Rightarrow> exn \<Rightarrow> call list \<times> string option" where
  "download_except cb tr e = (tr @ emit cb 0 (''Error: '' @ e), None)"

text \<open>Line 79: the destination of a generic download.\<close>

definition video_name_at :: "rat \<Rightarrow> string" where
  "video_name_at t = path_join UPLOAD_FOLDER (''video_'' @ str_int (py_int t) @ ''.mp4'')"

definition download_video :: "download_env \<Rightarrow> string \<Rightarrow> bool \<Rightarrow> call list \<times> string option" where
  "download_video env url cb =
     (let tr1 = emit cb 10 ''Starting download...'' in
      if py_in ''youtube.com'' url \<or> py_in ''youtu.be'' url then
        let tr2 = tr1 @ [YouTubeStreams url] in
        case yt_first_stream env of
          Inl e \<Rightarrow> download_except cb tr2 e
        | Inr None \<Rightarrow> (tr2, None)
        | Inr (Some stream) \<Rightarrow>
            let tr3 = tr2 @ emit cb 30 ''Downloading video...'' @ [StreamDownload UPLOAD_FOLDER] in
            (case download stream of
               Inl e \<Rightarrow> download_except cb tr3 e
             | Inr output_path \<Rightarrow> (tr3 @ emit cb 100 ''Download complete!'', Some output_path))
      else
        let tr2 = tr1 @ emit cb 50 ''Downloading from URL...'';
            video_name = video_name_at (now env);
            tr3 = tr2 @ [UrlRetrieve url video_name]
        in case urlretrieve env of
             Some e \<Rightarrow> download_except cb tr3 e
           | None \<Rightarrow> (tr3 @ emit cb 100 ''Download complete!'', Some video_name))"

subsection \<open>\<open>upload_video\<close>\<close>

text \<open>\<open>YouTubeShortsProcessor\<close>: its one attribute, \<open>None\<close> after \<open>__init__\<close>.\<close>

record processor =
  youtube_service :: "service option"

definition init_processor :: processor where
  "init_processor = \<lparr>youtube_service = None\<rparr>"

text \<open>\<open>s.split(',')\<close>\<close>

fun split_comma :: "string \<Rightarrow> string list" where
  "split_comma [] = [[]]"
| "split_comma (c # cs) =
     (if c = CHR '','' then [] # split_comma cs
      else (case split_comma cs of w # ws \<Rightarrow> (c # w) # ws | [] \<Rightarrow> [[c]]))"

text \<open>
  The remote side. \<open>media_file_upload\<close> is \<open>MediaFileUpload(file_path, ...)\<close> and
  \<open>videos_insert\<close> is \<open>videos().insert(...)\<close> on a built service (\<open>None\<close>: it returned);
  \<open>next_chunk\<close> lists the answers of the successive \<open>request.next_chunk()\<close> calls:
  an exception, or the pair \<open>(status, response)\<close>, a status being its \<open>progress()\<close>.
  When the list ends before a response came, the loop has not returned.
\<close>

type_synonym response = string

datatype payload = Response response | Message string

record upload_env =
  media_file_upload :: "exn option"
  videos_insert :: "exn option"
  next_chunk :: "(exn + rat option \<times> response option) list"

definition upload_except ::
  "bool \<Rightarrow> call list \<Rightarrow> exn \<Rightarrow> call list \<times> (bool \<times> payload) option" where
  "upload_except cb tr e =
     (tr @ emit cb 0 (''Error: '' @ e), Some (False, Message (''Upload failed: '' @ e)))"

text \<open>
  Lines 257--259: the event for one acknowledged chunk. \<open>p\<close> is what
  \<open>status.progress()\<close> returns, a double; \<open>chunk_progress\<close> is
  \<open>int(status.progress() * 100)\<close>, the float product truncated, and \<open>chunk_percent\<close> is
  \<open>30 + progress * 0.7\<close>, the product and then the sum rounded.
\<close>

definition chunk_progress :: "rat \<Rightarrow> int" where
  "chunk_progress p = py_int (to_double (to_double p * 100))"

definition chunk_percent :: "rat \<Rightarrow> rat" where
  "chunk_percent p =
     to_double (30 + to_double (of_int (chunk_progress p) * to_double (7 / 10)))"

definition chunk_message :: "rat \<Rightarrow> string" where
  "chunk_message p = ''Uploading... '' @ str_int (chunk_progress p) @ ''%''"

text \<open>Lines 250--259, from the first test of \<open>response is None\<close> on.\<close>

fun upload_loop ::
  "bool \<Rightarrow> (exn + rat option \<times> response option) list \<Rightarrow> call list \<times> (exn + response) option" where
  "upload_loop cb [] = ([], None)"
| "upload_loop cb (answer # answers) =
     (let tr1 = emit cb 30 ''Uploading...'' @ [NextChunk] in
      case answer of
        Inl e \<Rightarrow> (tr1, Some (Inl e))
      | Inr (status, response) \<Rightarrow>
          let tr2 = tr1 @ (case status of
                             None \<Rightarrow> []
                           | Some p \<Rightarrow> emit cb (chunk_percent p) (chunk_message p))
          in case response of
               Some r \<Rightarrow> (tr2, Some (Inr r))
             | None \<Rightarrow> (let (tr, res) = upload_loop cb answers in (tr2 @ tr, res)))"

definition quoted :: "string \<Rightarrow> string" where
  "quoted s = CHR 0x27 # s @ [CHR 0x27]"

text \<open>The \<open>AttributeError\<close> of \<open>None.videos()\<close>.\<close>

definition none_has_no_videos :: exn where
  "none_has_no_videos = quoted ''NoneType'' @ '' object has no attribute '' @ quoted ''videos''"

definition upload_video ::
  "upload_env \<Rightarrow> processor \<Rightarrow> string \<Rightarrow> string \<Rightarrow> string \<Rightarrow> string \<Rightarrow> string \<Rightarrow> string \<Rightarrow> bool
     \<Rightarrow> call list \<times> (bool \<times> payload) option" where
  "upload_video env self file_path title description category_id keywords privacy_status cb =
     (let tr1 = emit cb 10 ''Starting upload...'';
          body = \<lparr>snippet_title = title,
                  snippet_description = description,
                  snippet_tags = (if keywords \<noteq> [] then split_comma keywords else []),
                  snippet_categoryId = category_id,
                  status_privacyStatus = privacy_status\<rparr>;
          tr2 = tr1 @ [MediaFileUpload file_path]
      in case media_file_upload env of
           Some e \<Rightarrow> upload_except cb tr2 e
         | None \<Rightarrow>
             let tr3 = tr2 @ emit cb 20 ''Initiating upload...'' in
             (case youtube_service self of
                None \<Rightarrow> upload_except cb tr3 none_has_no_videos
              | Some svc \<Rightarrow>
                  let tr4 = tr3 @ [VideosInsert body] in
                  (case videos_insert env of
                     Some e \<Rightarrow> upload_except cb tr4 e
                   | None \<Rightarrow>
                       (case upload_loop cb (next_chunk env) of
                          (tr, None) \<Rightarrow> (tr4 @ tr, None)
                        | (tr, Some (Inl e)) \<Rightarrow> upload_except cb (tr4 @ tr) e
                        | (tr, Some (Inr response)) \<Rightarrow>
                            (tr4 @ tr @ emit cb 100 ''Upload complete!'',
                             Some (True, Response response))))))"

subsection \<open>\<open>authenticate_youtube\<close>\<close>

text \<open>
  The two files the function touches: \<open>token.pickle\<close> (absent, or holding pickled
  credentials) and \<open>temp_client_secret.json\<close> (absent, or holding the dumped payload).
  Local file operations are taken to succeed.
\<close>

type_synonym json = string

record disk =
  token_pickle :: "creds option"
  temp_cred_file :: "json option"

text \<open>
  The Google client. \<open>json_loads\<close> is \<open>json.loads\<close>; \<open>refresh\<close> is
  \<open>creds.refresh(Request())\<close>, returning the refreshed credentials; \<open>run_local_server\<close> is
  \<open>InstalledAppFlow.from_client_secrets_file(...)\<close> followed by
  \<open>flow.run_local_server(port=0)\<close>, the interactive consent; \<open>build_raises\<close> is
  \<open>build('youtube', 'v3', credentials=creds)\<close> (\<open>None\<close>: it returned the service).
\<close>

record auth_env =
  json_loads :: "string \<Rightarrow> exn + json"
  refresh :: "creds \<Rightarrow> exn + creds"
  run_local_server :: "json \<Rightarrow> exn + creds"
  build_raises :: "creds \<Rightarrow> exn option"

definition auth_except ::
  "processor \<Rightarrow> disk \<Rightarrow> call list \<Rightarrow> exn
     \<Rightarrow> processor \<times> disk \<times> call list \<times> bool \<times> string" where
  "auth_except self d tr e = (self, d, tr, False, ''Authentication failed: '' @ e)"

text \<open>Lines 201--207: build the service, remove the temporary file, report success.\<close>

definition auth_build ::
  "auth_env \<Rightarrow> processor \<Rightarrow> disk \<Rightarrow> call list \<Rightarrow> creds
     \<Rightarrow> processor \<times> disk \<times> call list \<times> bool \<times> string" where
  "auth_build env self d tr c =
     (case build_raises env c of
        Some e \<Rightarrow> auth_except self d (tr @ [Build c]) e
      | None \<Rightarrow>
          (self\<lparr>youtube_service := Some (Service c)\<rparr>, d\<lparr>temp_cred_file := None\<rparr>,
           tr @ [Build c], True, ''Authentication successful''))"

text \<open>Lines 192--199: the interactive consent flow, then the new token is persisted.\<close>

definition auth_consent ::
  "auth_env \<Rightarrow> processor \<Rightarrow> disk \<Rightarrow> call list \<Rightarrow> json
     \<Rightarrow> processor \<times> disk \<times> call list \<times> bool \<times> string" where
  "auth_consent env self d tr credentials_info =
     (case run_local_server env credentials_info of
        Inl e \<Rightarrow> auth_except self d (tr @ [RunLocalServer]) e
      | Inr c' \<Rightarrow> auth_build env self (d\<lparr>token_pickle := Some c'\<rparr>) (tr @ [RunLocalServer]) c')"

text \<open>
  Lines 173--211. \<open>creds\<close> is \<open>None\<close> when \<open>token.pickle\<close> does not exist, so
  \<open>not creds\<close> is the case \<open>None\<close>; a credentials object itself is always truthy.
\<close>

definition authenticate_youtube ::
  "auth_env \<Rightarrow> processor \<Rightarrow> disk \<Rightarrow> string
     \<Rightarrow> processor \<times> disk \<times> call list \<times> bool \<times> string" where
  "authenticate_youtube env self d credentials_json =
     (let tr1 = [JsonLoads credentials_json] in
      case json_loads env credentials_json of
        Inl e \<Rightarrow> auth_except self d tr1 e
      | Inr credentials_info \<Rightarrow>
          let d1 = d\<lparr>temp_cred_file := Some credentials_info\<rparr> in
          (case token_pickle d1 of
             None \<Rightarrow> auth_consent env self d1 tr1 credentials_info
           | Some c \<Rightarrow>
               if \<not> valid c then
                 if expired c \<and> refresh_token c \<noteq> None \<and> refresh_token c \<noteq> Some [] then
                   (case refresh env c of
                      Inl e \<Rightarrow> auth_except self d1 (tr1 @ [Refresh c]) e
                    | Inr c' \<Rightarrow>
                        auth_build env self (d1\<lparr>token_pickle := Some c'\<rparr>) (tr1 @ [Refresh c]) c')
                 else auth_consent env self d1 tr1 credentials_info
               else auth_build env self d1 tr1 c))"

subsection \<open>The route \<open>/api/upload\<close>\<close>

text \<open>A parsed JSON value, as \<open>request.get_json()\<close> returns it; an object is its items.\<close>

datatype json_value =
    JNull
  | JBool bool
  | JInt int
  | JFloat rat
  | JStr string
  | JArr "json_value list"
  | JObj "(string \<times> json_value) list"

text \<open>Truthiness, which \<open>not x\<close> negates, and \<open>type(x).__name__\<close>.\<close>

fun truthy :: "json_value \<Rightarrow> bool" where
  "truthy JNull = False"
| "truthy (JBool b) = b"
| "truthy (JInt i) = (i \<noteq> 0)"
| "truthy (JFloat x) = (x \<noteq> 0)"
| "truthy (JStr s) = (s \<noteq> [])"
| "truthy (JArr xs) = (xs \<noteq> [])"
| "truthy (JObj kvs) = (kvs \<noteq> [])"

fun type_name :: "json_value \<Rightarrow> string" where
  "type_name JNull = ''NoneType''"
| "type_name (JBool b) = ''bool''"
| "type_name (JInt i) = ''int''"
| "type_name (JFloat x) = ''float''"
| "type_name (JStr s) = ''str''"
| "type_name (JArr xs) = ''list''"
| "type_name (JObj kvs) = ''dict''"

text \<open>\<open>data.get(key, default)\<close> on a dict, and the \<open>AttributeError\<close> on anything else.\<close>

definition dict_get :: "(string \<times> json_value) list \<Rightarrow> string \<Rightarrow> json_value \<Rightarrow> json_value" where
  "dict_get kvs key dflt = (case map_of kvs key of None \<Rightarrow> dflt | Some v \<Rightarrow> v)"

definition no_attribute_get :: "json_value \<Rightarrow> exn" where
  "no_attribute_get v = quoted (type_name v) @ '' object has no attribute '' @ quoted ''get''"

text \<open>
  \<open>os.path.exists\<close>. On a string it answers whether the path exists; on an integer
  (and a boolean is one) whether that file descriptor is open, or raises
  \<open>OverflowError\<close>; on any other value \<open>os.stat\<close> raises \<open>TypeError\<close>, which
  \<open>os.path.exists\<close> does not catch.
\<close>

record file_system =
  path_exists :: "string \<Rightarrow> bool"
  fd_exists :: "int \<Rightarrow> exn + bool"

definition os_path_exists :: "file_system \<Rightarrow> json_value \<Rightarrow> exn + bool" where
  "os_path_exists fs v =
     (case v of
        JStr s \<Rightarrow> Inr (path_exists fs s)
      | JInt i \<Rightarrow> fd_exists fs i
      | JBool b \<Rightarrow> fd_exists fs (if b then 1 else 0)
      | _ \<Rightarrow> Inl (''stat: path should be string, bytes, os.PathLike or integer, not ''
                  @ type_name v))"

text \<open>The arguments of the \<open>upload_task\<close> the route hands to a thread.\<close>

record upload_task =
  task_video_path :: json_value
  task_title :: json_value
  task_description :: json_value
  task_tags :: json_value
  task_privacy_status :: json_value

text \<open>
  Line 360, \<open>not video_path or not os.path.exists(video_path) or not title\<close>, evaluated
  from left to right: \<open>Inl\<close> when \<open>os.path.exists\<close> raises.
\<close>

definition invalid_parameters :: "file_system \<Rightarrow> json_value \<Rightarrow> json_value \<Rightarrow> exn + bool" where
  "invalid_parameters fs video_path title =
     (if \<not> truthy video_path then Inr True
      else case os_path_exists fs video_path of
             Inl e \<Rightarrow> Inl e
           | Inr found \<Rightarrow> Inr (\<not> found \<or> \<not> truthy title))"

text \<open>
  Lines 351--381. \<open>get_json\<close> is \<open>request.get_json()\<close>, \<open>Inl\<close> when it raises. The
  answer is the HTTP status, the \<open>success\<close> flag and the \<open>error\<close> or \<open>message\<close> text;
  the second component is the task started on a background thread, if one is started.
  The route itself makes no call to the platform: every network call of a publish is
  made by that thread, in \<open>processor.upload_video\<close>.
\<close>

definition upload_video_route ::
  "file_system \<Rightarrow> exn + json_value \<Rightarrow> (nat \<times> bool \<times> string) \<times> upload_task option" where
  "upload_video_route fs get_json =
     (case get_json of
        Inl e \<Rightarrow> ((500, False, e), None)
      | Inr data \<Rightarrow>
          (case data of
             JObj kvs \<Rightarrow>
               let video_path = dict_get kvs ''video_path'' JNull;
                   title = dict_get kvs ''title'' JNull;
                   description = dict_get kvs ''description'' (JStr []);
                   tags = dict_get kvs ''tags'' (JStr []);
                   privacy_status = dict_get kvs ''privacy_status'' (JStr ''private'')
               in (case invalid_parameters fs video_path title of
                     Inl e \<Rightarrow> ((500, False, e), None)
                   | Inr True \<Rightarrow> ((400, False, ''Invalid parameters''), None)
                   | Inr False \<Rightarrow>
                       ((200, True, ''Upload started''),
                        Some \<lparr>task_video_path = video_path,
                              task_title = title,
                              task_description = description,
                              task_tags = tags,
                              task_privacy_status = privacy_status\<rparr>))
           | _ \<Rightarrow> ((500, False, no_attribute_get data), None)))"

subsection \<open>The properties the specification names\<close>

text \<open>\<open>round(x)\<close>, as the specification writes it: to the nearest integer, ties to even.\<close>

definition spec_round :: "rat \<Rightarrow> int" where
  "spec_round x =
     (let f = \<lfloor>x\<rfloor>; r = x - of_int f in
      if r < 1 / 2 then f else if r > 1 / 2 then f + 1 else if even f then f else f + 1)"

text \<open>
  The progress invariant of the specification: percent never decreases, except for a
  last event that resets to 0 and carries a non-empty message.
\<close>

fun progress_monotone :: "(rat \<times> string) list \<Rightarrow> bool" where
  "progress_monotone [] = True"
| "progress_monotone [e] = True"
| "progress_monotone (a # b # es) =
     ((fst a \<le> fst b \<or> (fst b = 0 \<and> snd b \<noteq> [] \<and> es = [])) \<and> progress_monotone (b # es))"

text \<open>
  The percents of the events \<open>"Uploading... N%"\<close>, one per chunk the transport
  acknowledged with a status, and the progress values of those statuses.
\<close>

definition ack_percents :: "call list \<Rightarrow> rat list" where
  "ack_percents tr =
     map fst (filter (\<lambda>(p, m). prefix ''Uploading... '' m) (progress_events tr))"

fun acked :: "(exn + rat option \<times> response option) list \<Rightarrow> rat list" where
  "acked [] = []"
| "acked (Inl e # answers) = []"
| "acked (Inr (status, response) # answers) =
     (case status of None \<Rightarrow> [] | Some p \<Rightarrow> [p])
       @ (case response of None \<Rightarrow> acked answers | Some r \<Rightarrow> [])"

text \<open>The clip handed to the encoder, the calls that reach the network, and the crops asked for.\<close>

fun written_clip :: "call list \<Rightarrow> clip option" where
  "written_clip [] = None"
| "written_clip (WriteVideofile c out # tr) = Some c"
| "written_clip (c # tr) = written_clip tr"

definition is_network_call :: "call \<Rightarrow> bool" where
  "is_network_call c =
     (case c of
        YouTubeStreams u \<Rightarrow> True | StreamDownload p \<Rightarrow> True | UrlRetrieve u p \<Rightarrow> True
      | VideosInsert b \<Rightarrow> True | NextChunk \<Rightarrow> True | Refresh k \<Rightarrow> True
      | RunLocalServer \<Rightarrow> True | Build k \<Rightarrow> True | _ \<Rightarrow> False)"

fun crop_calls :: "call list \<Rightarrow> (rat \<times> rat \<times> rat \<times> rat) list" where
  "crop_calls [] = []"
| "crop_calls (Crop x1 y1 x2 y2 # tr) = (x1, y1, x2, y2) # crop_calls tr"
| "crop_calls (c # tr) = crop_calls tr"

subsection \<open>Concrete runs\<close>

text \<open>A 1920x1080 source of 90 seconds that loads and renders without error.\<close>

definition scenario_env :: convert_env where
  "scenario_env = \<lparr>load = Inr \<lparr>duration = 90, clip_size = (1920, 1080)\<rparr>, write_videofile = None\<rparr>"

text \<open>A 400x1000 source of 10 seconds: narrower than 9:16 by more than the tolerance.\<close>

definition tall_env :: convert_env where
  "tall_env = \<lparr>load = Inr \<lparr>duration = 10, clip_size = (400, 1000)\<rparr>, write_videofile = None\<rparr>"

text \<open>The same 1920x1080 source, with an encoder that fails while writing.\<close>

definition disk_full_env :: convert_env where
  "disk_full_env = \<lparr>load = Inr \<lparr>duration = 90, clip_size = (1920, 1080)\<rparr>,
                    write_videofile = Some ''No space left on device''\<rparr>"

text \<open>A platform URL for which pytube finds no progressive mp4 stream.\<close>

definition no_stream_env :: download_env where
  "no_stream_env = \<lparr>yt_first_stream = Inr None, now = 0, urlretrieve = None\<rparr>"




text \<open>A processor after a successful \<open>authenticate_youtube\<close>.\<close>

definition built :: processor where
  "built = \<lparr>youtube_service = Some (Service \<lparr>token = ''t'', valid = True, expired = False, refresh_token = None\<rparr>)\<rparr>"

text \<open>A transport that acknowledges half of the file, then answers with the video.\<close>

definition two_chunk_env :: upload_env where
  "two_chunk_env = \<lparr>media_file_upload = None, videos_insert = None,
                     next_chunk = [Inr (Some (1 / 2), None), Inr (None, Some ''video-id'')]\<rparr>"

text \<open>A transport that reports 0, 1/4, 1/2, 3/4 and 1, the response coming with the last.\<close>

definition quarters_env :: upload_env where
  "quarters_env = \<lparr>media_file_upload = None, videos_insert = None,
     next_chunk = [Inr (Some 0, None), Inr (Some (1 / 4), None), Inr (Some (1 / 2), None),
                   Inr (Some (3 / 4), None), Inr (Some 1, Some ''video-id'')]\<rparr>"

text \<open>A transport whose first acknowledgement is half a percent of the file.\<close>

definition tiny_ack_env :: upload_env where
  "tiny_ack_env = \<lparr>media_file_upload = None, videos_insert = None,
     next_chunk = [Inr (Some (1 / 200), None), Inr (None, Some ''video-id'')]\<rparr>"


definition titled_request :: json_value where
  "titled_request =
     JObj [(''video_path'', JStr ''processed/shorts_in.mp4''), (''title'', JStr ''title'')]"

definition list_path_request :: json_value where
  "list_path_request = JObj [(''video_path'', JArr [JStr ''a.mp4'']), (''title'', JStr [])]"

definition every_path_exists :: file_system where
  "every_path_exists = \<lparr>path_exists = (\<lambda>p. True), fd_exists = (\<lambda>i. Inr True)\<rparr>"

text \<open>A valid token on disk, and a Google client that would refuse consent and refresh.\<close>

definition stored_creds :: creds where
  "stored_creds = \<lparr>token = ''ya29'', valid = True, expired = False, refresh_token = Some ''1//r''\<rparr>"

definition stored_disk :: disk where
  "stored_disk = \<lparr>token_pickle = Some stored_creds, temp_cred_file = None\<rparr>"

definition consent_denied_env :: auth_env where
  "consent_denied_env = \<lparr>json_loads = (\<lambda>s. if s = [] then Inl ''Expecting value'' else Inr s),
     refresh = (\<lambda>c. Inl ''invalid_grant''),
     run_local_server = (\<lambda>j. Inl ''access_denied''),
     build_raises = (\<lambda>c. None)\<rparr>"

section \<open>Verification\<close>

subsection \<open>Arithmetic and decimal numerals\<close>

lemma floor_rat_numeral: "\<lfloor>numeral a / numeral b :: rat\<rfloor> = numeral a div numeral b"
  using floor_divide_of_int_eq [of "numeral a" "numeral b", where ?'a = rat] by simp

lemma floor_rat_one_numeral: "\<lfloor>1 / numeral b :: rat\<rfloor> = 1 div numeral b"
  using floor_divide_of_int_eq [of 1 "numeral b", where ?'a = rat] by simp

lemma py_int_nonneg: "0 \<le> x \<Longrightarrow> py_int x = \<lfloor>x\<rfloor>"
  by (simp add: py_int_def)









subsection \<open>Rounding to a double\<close>

lemma nearest_even_error: "\<bar>of_int (nearest_even y) - y\<bar> \<le> 1 / 2"
proof -
  have a: "of_int \<lfloor>y\<rfloor> \<le> y" and b: "y < of_int \<lfloor>y\<rfloor> + 1" by linarith+
  show ?thesis using a b by (auto simp: nearest_even_def Let_def) 
qed

lemma nearest_even_nonneg: "0 \<le> y \<Longrightarrow> 0 \<le> nearest_even y"
  by (auto simp: nearest_even_def Let_def)

lemma ilog2_bounds: "0 < n \<Longrightarrow> 2 ^ ilog2 n \<le> n \<and> n < 2 ^ Suc (ilog2 n)"
proof (induction n rule: ilog2.induct)
  case (1 n)
  show ?case
  proof (cases "n < 2")
    case True
    with "1.prems" have "n = 1" by simp
    then show ?thesis by (subst (1 2) ilog2.simps) simp
  next
    case False
    then have pos: "0 < n div 2" by simp
    from "1.IH" [OF False pos]
    have lo: "2 ^ ilog2 (n div 2) \<le> n div 2" and hi: "n div 2 < 2 ^ Suc (ilog2 (n div 2))" by simp_all
    have eq: "ilog2 n = Suc (ilog2 (n div 2))" using False by (subst ilog2.simps) simp
    have "2 * 2 ^ ilog2 (n div 2) \<le> 2 * (n div 2)" using lo by simp
    also have "\<dots> \<le> n" by simp
    finally have l: "2 ^ ilog2 n \<le> n" by (simp add: eq)
    have "n < 2 * (n div 2) + 2" by presburger
    also have "\<dots> \<le> 2 * 2 ^ Suc (ilog2 (n div 2))" using hi by simp
    finally have h: "n < 2 ^ Suc (ilog2 n)" by (simp add: eq)
    show ?thesis using l h by simp
  qed
qed

lemma pow2_powi: "pow2 k = 2 powi k"
  by (simp add: pow2_def power_int_def inverse_eq_divide power_one_over)

lemma pow2_pos: "0 < pow2 k"
  by (simp add: pow2_def)

lemma pow2_diff: "pow2 (k - 52) = pow2 k / 2 ^ 52"
  by (simp add: pow2_powi power_int_diff)

lemma binary_exponent_le:
  assumes "0 < x"
  shows "pow2 (binary_exponent x) \<le> x"
proof (cases "1 \<le> x")
  case True
  then have fp: "0 < nat \<lfloor>x\<rfloor>" by simp
  have "(2::rat) ^ ilog2 (nat \<lfloor>x\<rfloor>) = of_nat (2 ^ ilog2 (nat \<lfloor>x\<rfloor>))" by simp
  also have "\<dots> \<le> of_nat (nat \<lfloor>x\<rfloor>)" using ilog2_bounds [OF fp] by (simp only: of_nat_le_iff)
  also have "\<dots> = of_int \<lfloor>x\<rfloor>" using True by simp
  also have "\<dots> \<le> x" by simp
  finally show ?thesis using True by (simp add: binary_exponent_def pow2_def)
next
  case False
  then have x1: "x < 1" by simp
  let ?n = "nat \<lceil>1 / x\<rceil>"
  have inv: "1 < 1 / x" using assms x1 by simp
  then have c2: "2 \<le> \<lceil>1 / x\<rceil>" by linarith
  from c2 have n2: "2 \<le> ?n" by linarith
  from n2 have mp: "0 < ?n - 1" by linarith
  have "1 / x \<le> of_int \<lceil>1 / x\<rceil>" by simp
  also have "\<dots> = of_nat ?n" using c2 by simp
  also have "\<dots> \<le> of_nat (2 ^ Suc (ilog2 (?n - 1)))"
  proof -
    have "?n - 1 < 2 ^ Suc (ilog2 (?n - 1))" using ilog2_bounds [OF mp] by blast
    then have "?n \<le> 2 ^ Suc (ilog2 (?n - 1))" by linarith
    then show ?thesis by (simp only: of_nat_le_iff)
  qed
  finally have "1 / x \<le> 2 ^ Suc (ilog2 (?n - 1))" by simp
  then have "1 / 2 ^ Suc (ilog2 (?n - 1)) \<le> x"
    using assms by (simp add: field_simps)
  moreover have "binary_exponent x = - int (Suc (ilog2 (?n - 1)))"
    using False n2 by (simp add: binary_exponent_def Let_def)
  moreover have "pow2 (- int (Suc (ilog2 (?n - 1)))) = 1 / 2 ^ Suc (ilog2 (?n - 1))"
    by (simp add: pow2_def del: of_nat_Suc)
  ultimately show ?thesis by (simp only:)
qed

lemma to_double_error:
  assumes "0 < x"
  shows "\<bar>to_double x - x\<bar> \<le> x / 2 ^ 53"
proof -
  let ?u = "pow2 (binary_exponent x - 52)"
  have up: "0 < ?u" by (rule pow2_pos)
  have td: "to_double x = of_int (nearest_even (x / ?u)) * ?u"
    using assms by (simp add: to_double_def Let_def)
  have "\<bar>to_double x - x\<bar> = \<bar>of_int (nearest_even (x / ?u)) - x / ?u\<bar> * ?u"
  proof -
    have "to_double x - x = (of_int (nearest_even (x / ?u)) - x / ?u) * ?u"
      using up by (simp add: td field_simps)
    then show ?thesis using up by (simp add: abs_mult)
  qed
  also have "\<dots> \<le> (1 / 2) * ?u"
    using nearest_even_error [of "x / ?u"] up by (intro mult_right_mono) simp_all
  also have "\<dots> = pow2 (binary_exponent x) / 2 ^ 53" by (simp add: pow2_diff)
  also have "\<dots> \<le> x / 2 ^ 53" using binary_exponent_le [OF assms] by (simp add: divide_right_mono)
  finally show ?thesis .
qed

lemma to_double_nonneg: "0 \<le> x \<Longrightarrow> 0 \<le> to_double x"
proof -
  assume "0 \<le> x"
  show ?thesis
  proof (cases "x = 0")
    case True then show ?thesis by (simp add: to_double_def)
  next
    case False
    with \<open>0 \<le> x\<close> have xp: "0 < x" by simp
    have "0 \<le> x / pow2 (binary_exponent x - 52)" using xp pow2_pos by (simp add: less_imp_le)
    then have "0 \<le> nearest_even (x / pow2 (binary_exponent x - 52))" by (rule nearest_even_nonneg)
    then show ?thesis using xp pow2_pos [of "binary_exponent x - 52"]
      by (simp add: to_double_def Let_def less_imp_le)
  qed
qed


lemma to_double_error0: "0 \<le> x \<Longrightarrow> \<bar>to_double x - x\<bar> \<le> x / 2 ^ 53"
proof (cases "x = 0")
  case True
  then show ?thesis by (simp add: to_double_def)
next
  case False
  assume "0 \<le> x"
  with False have "0 < x" by simp
  then show ?thesis by (rule to_double_error)
qed

lemma double_seven_tenths: "to_double (7 / 10) = 3152519739159347 / 4503599627370496"
  by code_simp

text \<open>57 of 100 chunks: the product \<open>0.57 * 100\<close> is \<open>56.99999999999999\<close>, so 56 percent.\<close>

lemma chunk_values_rounded:
  "chunk_progress (57 / 100) = 56"
  "chunk_percent (57 / 100) = 1217379274273587 / 17592186044416"
  "chunk_progress (3 / 5) = 60"
  by code_simp+

lemma chunk_percent_bounds:
  assumes "0 \<le> p" "p \<le> 1"
  shows "0 \<le> chunk_progress p \<and> chunk_progress p \<le> 100
         \<and> 30 + p * 70 - 7 / 10 - 1 / 10 ^ 13 < chunk_percent p
         \<and> chunk_percent p \<le> 30 + p * 70 + 1 / 10 ^ 13"
proof -
  define q where "q = to_double p"
  define y where "y = to_double (q * 100)"
  define n where "n = chunk_progress p"
  define c :: rat where "c = 3152519739159347 / 4503599627370496"
  define t where "t = to_double (of_int n * c)"
  have q0: "0 \<le> q" unfolding q_def using assms(1) by (rule to_double_nonneg)
  have qe: "\<bar>q - p\<bar> \<le> p / 2 ^ 53" unfolding q_def using assms(1) by (rule to_double_error0)
  have x0: "0 \<le> q * 100" using q0 by simp
  have y0: "0 \<le> y" unfolding y_def using x0 by (rule to_double_nonneg)
  have ye: "\<bar>y - q * 100\<bar> \<le> q * 100 / 2 ^ 53" unfolding y_def using x0 by (rule to_double_error0)
  have nf: "n = \<lfloor>y\<rfloor>" using y0 by (simp add: n_def chunk_progress_def y_def q_def py_int_def)
  have n_le: "of_int n \<le> y" and n_gt: "y < of_int n + 1" unfolding nf by linarith+
  have n0: "0 \<le> n" using y0 nf by simp
  have qn: "\<bar>q - p\<bar> \<le> p / 9007199254740992" using qe by simp
  have yn: "\<bar>y - q * 100\<bar> \<le> q * 100 / 9007199254740992" using ye by simp
  have "y < 101" using yn qn assms by linarith
  then have "(of_int n :: rat) < of_int 101" using n_le by simp
  then have "n < 101" by (simp only: of_int_less_iff)
  then have n100: "n \<le> 100" by simp
  have z0: "0 \<le> of_int n * c" using n0 by (simp add: c_def)
  have t0: "0 \<le> t" unfolding t_def using z0 by (rule to_double_nonneg)
  have te: "\<bar>t - of_int n * c\<bar> \<le> of_int n * c / 2 ^ 53"
    unfolding t_def using z0 by (rule to_double_error0)
  have s0: "0 \<le> 30 + t" using t0 by simp
  have v: "chunk_percent p = to_double (30 + t)"
    by (simp add: chunk_percent_def t_def n_def c_def double_seven_tenths)
  have ve: "\<bar>chunk_percent p - (30 + t)\<bar> \<le> (30 + t) / 2 ^ 53"
    unfolding v using s0 by (rule to_double_error0)
  have n100r: "(of_int n :: rat) \<le> 100" using n100 by simp
  have n0r: "(0::rat) \<le> of_int n" using n0 by simp
  have tn: "\<bar>t - of_int n * (3152519739159347 / 4503599627370496)\<bar>
              \<le> of_int n * (3152519739159347 / 4503599627370496) / 9007199254740992"
    using te unfolding c_def by simp
  have vn: "\<bar>chunk_percent p - (30 + t)\<bar> \<le> 30 / 9007199254740992 + t / 9007199254740992"
    using ve by (simp add: add_divide_distrib)
  have q_lo: "p - p / 9007199254740992 \<le> q" and q_hi: "q \<le> p + p / 9007199254740992"
    using qn by linarith+
  have y_lo: "q * 100 - q * 100 / 9007199254740992 \<le> y"
    and y_hi: "y \<le> q * 100 + q * 100 / 9007199254740992"
    using yn by linarith+
  have t_lo: "of_int n * (3152519739159347 / 4503599627370496)
                - of_int n * (3152519739159347 / 4503599627370496) / 9007199254740992 \<le> t"
    and t_hi: "t \<le> of_int n * (3152519739159347 / 4503599627370496)
                + of_int n * (3152519739159347 / 4503599627370496) / 9007199254740992"
    using tn by linarith+
  have v_lo: "(30 + t) - (30 / 9007199254740992 + t / 9007199254740992) \<le> chunk_percent p"
    and v_hi: "chunk_percent p \<le> (30 + t) + (30 / 9007199254740992 + t / 9007199254740992)"
    using vn by linarith+
  have q1: "p - 1 / 9007199254740992 \<le> q" using q_lo assms by linarith
  have q2: "q \<le> p + 1 / 9007199254740992" using q_hi assms by linarith
  have y1: "p * 100 - 300 / 9007199254740992 \<le> y" using y_lo q1 q2 assms by linarith
  have y2: "y \<le> p * 100 + 300 / 9007199254740992" using y_hi q2 assms by linarith
  have z1: "(of_int n :: rat) * (7 / 10) - 40 / 9007199254740992
              \<le> of_int n * (3152519739159347 / 4503599627370496)"
    using n100r n0r by linarith
  have z2: "(of_int n :: rat) * (3152519739159347 / 4503599627370496) \<le> of_int n * (7 / 10)"
    using n0r by linarith
  have t1: "of_int n * (7 / 10) - 140 / 9007199254740992 \<le> t"
    using t_lo z1 z2 n100r n0r by linarith
  have t2: "t \<le> of_int n * (7 / 10) + 100 / 9007199254740992"
    using t_hi z2 n100r n0r by linarith
  have t3: "t \<le> 100" using t2 n100r by linarith
  have v1: "30 + t - 200 / 9007199254740992 \<le> chunk_percent p" using v_lo t3 t0 by linarith
  have v2: "chunk_percent p \<le> 30 + t + 200 / 9007199254740992" using v_hi t3 t0 by linarith
  have lower: "30 + p * 70 - 7 / 10 - 1 / 10000000000000 < chunk_percent p"
    using v1 t1 n_gt y1 by linarith
  have upper: "chunk_percent p \<le> 30 + p * 70 + 1 / 10000000000000"
    using v2 t2 n_le y2 by linarith
  show ?thesis using n0 n100 lower upper unfolding n_def by simp
qed

lemma chunk_values:
  "chunk_progress 0 = 0" "chunk_percent 0 = 30"
  "chunk_progress (1 / 4) = 25" "chunk_percent (1 / 4) = 95 / 2"
  "chunk_progress (1 / 2) = 50" "chunk_percent (1 / 2) = 65"
  "chunk_progress (3 / 4) = 75" "chunk_percent (3 / 4) = 165 / 2"
  "chunk_progress 1 = 100" "chunk_percent 1 = 100"
  "chunk_progress (1 / 200) = 0" "chunk_percent (1 / 200) = 30"
  by code_simp+

subsection \<open>Reading a trace\<close>

lemma progress_events_append:
  "progress_events (xs @ ys) = progress_events xs @ progress_events ys"
  by (induction xs rule: progress_events.induct) simp_all

lemma crop_calls_append: "crop_calls (xs @ ys) = crop_calls xs @ crop_calls ys"
  by (induction xs rule: crop_calls.induct) simp_all

lemma written_clip_append:
  "written_clip (xs @ ys) = (case written_clip xs of None \<Rightarrow> written_clip ys | Some c \<Rightarrow> Some c)"
  by (induction xs rule: written_clip.induct) simp_all

lemma crop_calls_emit: "crop_calls (emit cb p m) = []"
  by (simp add: emit_def)

lemma written_clip_emit: "written_clip (emit cb p m) = None"
  by (simp add: emit_def)

lemma ack_percents_append: "ack_percents (xs @ ys) = ack_percents xs @ ack_percents ys"
  by (simp add: ack_percents_def progress_events_append)

lemma ack_percents_Nil: "ack_percents [] = []"
  by (simp add: ack_percents_def)

lemma ack_percents_Callback:
  "ack_percents (Callback p m # tr) =
     (if prefix ''Uploading... '' m then p # ack_percents tr else ack_percents tr)"
  by (simp add: ack_percents_def)

lemma ack_percents_other:
  "ack_percents (MediaFileUpload f # tr) = ack_percents tr"
  "ack_percents (VideosInsert b # tr) = ack_percents tr"
  "ack_percents (NextChunk # tr) = ack_percents tr"
  by (simp_all add: ack_percents_def)

lemmas ack_percents_simps =
  ack_percents_append ack_percents_Nil ack_percents_Callback ack_percents_other

subsection \<open>The crop computed by \<open>convert_to_shorts_format\<close>\<close>

lemma crop_args_wide:
  assumes "0 < height" "of_int width / of_int height - target_aspect_ratio > 1 / 10"
  shows "crop_args width height =
           Inr (Some (of_int width / 2 - of_int ((9 * height) div 16) / 2, 0,
                      of_int width / 2 + of_int ((9 * height) div 16) / 2, of_int height))"
proof -
  have fl: "py_int (of_int height * target_aspect_ratio) = (9 * height) div 16"
  proof -
    have "of_int height * target_aspect_ratio = (of_int (9 * height) :: rat) / of_int 16"
      by (simp add: target_aspect_ratio_def)
    moreover have "0 \<le> (of_int (9 * height) :: rat) / of_int 16" using assms(1) by simp
    ultimately show ?thesis
      by (simp only: py_int_nonneg floor_divide_of_int_eq)
  qed
  have gt: "of_int width / of_int height > target_aspect_ratio" using assms(2) by linarith
  have ab: "\<bar>of_int width / of_int height - target_aspect_ratio\<bar> > 1 / 10"
    using assms(2) by linarith
  have nz: "height \<noteq> 0" using assms(1) by simp
  show ?thesis unfolding crop_args_def Let_def
    by (simp only: nz gt ab fl if_True if_False)
qed

lemma crop_args_bounds:
  assumes "0 < width" "0 < height" "crop_args width height = Inr (Some (x1, y1, x2, y2))"
  shows "0 \<le> x1 \<and> 0 \<le> y1 \<and> x1 \<le> x2 \<and> y1 \<le> y2 \<and> x2 \<le> of_int width \<and> y2 \<le> of_int height"
proof -
  let ?w = "of_int width :: rat" and ?h = "of_int height :: rat"
  have hp: "0 < ?h" and wp: "0 < ?w" using assms by simp_all
  show ?thesis
  proof (cases "?w / ?h > target_aspect_ratio")
    case True
    let ?nw = "py_int (?h * target_aspect_ratio)"
    have nn: "0 \<le> ?h * target_aspect_ratio" using hp by (simp add: target_aspect_ratio_def)
    have nw: "?nw = \<lfloor>?h * target_aspect_ratio\<rfloor>" using nn by (rule py_int_nonneg)
    have lo: "0 \<le> (of_int ?nw :: rat)" using nn nw by simp
    have "(of_int ?nw :: rat) \<le> ?h * target_aspect_ratio" unfolding nw by (rule of_int_floor_le)
    also have "?h * target_aspect_ratio < ?w" using True hp by (simp add: pos_less_divide_eq mult.commute)
    finally have hi: "(of_int ?nw :: rat) < ?w" .
    from assms(3) True assms(2) have
      "x1 = ?w / 2 - of_int ?nw / 2" "y1 = 0" "x2 = ?w / 2 + of_int ?nw / 2" "y2 = ?h"
      by (auto simp: crop_args_def Let_def split: if_splits)
    then show ?thesis using lo hi hp by simp
  next
    case False
    let ?nh = "py_int (?w / target_aspect_ratio)"
    have nn: "0 \<le> ?w / target_aspect_ratio" using wp by (simp add: target_aspect_ratio_def)
    have nh: "?nh = \<lfloor>?w / target_aspect_ratio\<rfloor>" using nn by (rule py_int_nonneg)
    have lo: "0 \<le> (of_int ?nh :: rat)" using nn nh by simp
    have "(of_int ?nh :: rat) \<le> ?w / target_aspect_ratio" unfolding nh by (rule of_int_floor_le)
    also have "?w / target_aspect_ratio \<le> ?h" using False hp
      by (simp add: target_aspect_ratio_def pos_divide_le_eq not_less)
    finally have hi: "(of_int ?nh :: rat) \<le> ?h" .
    from assms(3) False assms(2) have
      "x1 = 0" "y1 = ?h / 2 - of_int ?nh / 2" "x2 = ?w" "y2 = ?h / 2 + of_int ?nh / 2"
      by (auto simp: crop_args_def Let_def split: if_splits)
    then show ?thesis using lo hi wp by simp
  qed
qed

lemma centred_width:
  fixes w n :: int
  assumes "0 \<le> n" "n \<le> w"
  shows "py_int (of_int w / 2 + of_int n / 2) - py_int (of_int w / 2 - of_int n / 2) = n"
proof -
  have a: "(of_int w :: rat) / 2 + of_int n / 2 = of_int (w + n) / of_int 2" 
    by (simp add: add_divide_distrib)
  have b: "(of_int w :: rat) / 2 - of_int n / 2 = of_int (w - n) / of_int 2"
    by (simp add: diff_divide_distrib)
  have pa: "0 \<le> (of_int (w + n) :: rat) / of_int 2" using assms by simp
  have pb: "0 \<le> (of_int (w - n) :: rat) / of_int 2" using assms by simp
  have "py_int (of_int (w + n) / of_int 2) = (w + n) div 2"
    using pa by (simp only: py_int_nonneg floor_divide_of_int_eq)
  moreover have "py_int (of_int (w - n) / of_int 2) = (w - n) div 2"
    using pb by (simp only: py_int_nonneg floor_divide_of_int_eq)
  moreover have "(w + n) div 2 - (w - n) div 2 = n" by presburger
  ultimately show ?thesis unfolding a b by simp
qed

lemma convert_crop_calls:
  assumes "load env = Inr c" "clip_size c = (w, h)"
  shows "crop_calls (fst (convert_to_shorts_format env p cb)) =
           (case crop_args w h of Inr (Some b) \<Rightarrow> [b] | _ \<Rightarrow> [])"
  using assms
  by (simp add: convert_to_shorts_format_def convert_except_def Let_def subclip_def
        crop_calls_append crop_calls_emit split: sum.split option.split prod.split)

lemma convert_written_clip:
  assumes "load env = Inr c" "clip_size c = (w, h)" "crop_args w h = Inr (Some (x1, y1, x2, y2))"
  shows "written_clip (fst (convert_to_shorts_format env p cb)) =
           Some \<lparr>duration = min (duration c) 60,
                 clip_size = (py_int x2 - py_int x1, py_int y2 - py_int y1)\<rparr>"
  using assms
  by (simp add: convert_to_shorts_format_def convert_except_def Let_def subclip_def crop_def
        written_clip_append written_clip_emit min_def split: sum.split option.split prod.split)

lemma scenario_trace:
  "convert_to_shorts_format scenario_env ''in.mp4'' False =
     ([VideoFileClip ''in.mp4'', Subclip 0 60, Crop (1313 / 2) 0 (2527 / 2) 1080,
       WriteVideofile \<lparr>duration = 60, clip_size = (607, 1080)\<rparr> ''processed/shorts_in.mp4'',
       Close],
      Some ''processed/shorts_in.mp4'')"
  by (simp add: scenario_env_def convert_to_shorts_format_def convert_except_def Let_def
      subclip_def crop_def emit_def crop_args_def target_aspect_ratio_def py_int_def floor_rat_numeral
      basename_def path_join_def PROCESSED_FOLDER_def)

text \<open>
  C1, as the code has it. For a source wider than 9:16 by more than the tolerance the
  stage asks for exactly one crop, centred horizontally over the full height, whose width
  is \<open>int(height * 9/16)\<close>, the product truncated and not rounded; the clip handed to the
  encoder has that width, the full height and at most 60 seconds. For the 1920x1080 source
  of 90 seconds that is 607 by 1080 pixels and 60 seconds.
\<close>

theorem wide_source_crop:
  assumes "load env = Inr c" "clip_size c = (w, h)" "0 < h"
    and "of_int w / of_int h - target_aspect_ratio > 1 / 10"
  shows "crop_calls (fst (convert_to_shorts_format env video_path cb)) =
           [(of_int w / 2 - of_int ((9 * h) div 16) / 2, 0,
             of_int w / 2 + of_int ((9 * h) div 16) / 2, of_int h)]
         \<and> py_int (of_int h * target_aspect_ratio) = (9 * h) div 16
         \<and> written_clip (fst (convert_to_shorts_format env video_path cb)) =
             Some \<lparr>duration = min (duration c) 60, clip_size = ((9 * h) div 16, h)\<rparr>"
proof -
  let ?n = "(9 * h) div 16"
  have args: "crop_args w h =
      Inr (Some (of_int w / 2 - of_int ?n / 2, 0, of_int w / 2 + of_int ?n / 2, of_int h))"
    using assms(3,4) by (rule crop_args_wide)
  have fl: "py_int (of_int h * target_aspect_ratio) = ?n"
  proof -
    have "of_int h * target_aspect_ratio = (of_int (9 * h) :: rat) / of_int 16"
      by (simp add: target_aspect_ratio_def)
    moreover have "0 \<le> (of_int (9 * h) :: rat) / of_int 16" using assms(3) by simp
    ultimately show ?thesis by (simp only: py_int_nonneg floor_divide_of_int_eq)
  qed
  have n0: "0 \<le> ?n" using assms(3) by simp
  have hp: "0 < (of_int h :: rat)" using assms(3) by simp
  have gt: "target_aspect_ratio < of_int w / of_int h" using assms(4) by linarith
  have "(of_int ?n :: rat) \<le> of_int (9 * h) / of_int 16"
    using of_int_floor_le [of "(of_int (9 * h) :: rat) / of_int 16"]
    by (simp only: floor_divide_of_int_eq)
  also have "\<dots> = of_int h * target_aspect_ratio" by (simp add: target_aspect_ratio_def)
  also have "\<dots> < of_int w" using gt hp by (simp add: pos_less_divide_eq mult.commute)
  finally have nw: "?n \<le> w" by simp
  have wd: "py_int (of_int w / 2 + of_int ?n / 2) - py_int (of_int w / 2 - of_int ?n / 2) = ?n"
    using n0 nw by (rule centred_width)
  have ht: "py_int (of_int h) - py_int 0 = h" using assms(3) by (simp add: py_int_def)
  have wc: "written_clip (fst (convert_to_shorts_format env video_path cb)) =
      Some \<lparr>duration = min (duration c) 60, clip_size = (?n, h)\<rparr>"
    using convert_written_clip [OF assms(1,2) args, of video_path cb] by (simp only: wd ht)
  have cc: "crop_calls (fst (convert_to_shorts_format env video_path cb)) =
      [(of_int w / 2 - of_int ?n / 2, 0, of_int w / 2 + of_int ?n / 2, of_int h)]"
    using convert_crop_calls [OF assms(1,2), of video_path cb] by (simp add: args)
  show ?thesis using cc fl wc by blast
qed

theorem wide_source_crop_witness:
  "crop_calls (fst (convert_to_shorts_format scenario_env ''in.mp4'' True)) =
     [(1313 / 2, 0, 2527 / 2, 1080)]
   \<and> py_int (1080 * target_aspect_ratio) = 607
   \<and> written_clip (fst (convert_to_shorts_format scenario_env ''in.mp4'' True)) =
       Some \<lparr>duration = 60, clip_size = (607, 1080)\<rparr>"
proof -
  have l: "load scenario_env = Inr \<lparr>duration = 90, clip_size = (1920, 1080)\<rparr>"
    by (simp add: scenario_env_def)
  have s: "clip_size \<lparr>duration = 90, clip_size = (1920, 1080)\<rparr> = (1920, 1080)" by simp
  have h: "(0::int) < 1080" by simp
  have r: "of_int 1920 / of_int 1080 - target_aspect_ratio > 1 / 10"
    by (simp add: target_aspect_ratio_def)
  show ?thesis using wide_source_crop [OF l s h r, of "''in.mp4''" True] by simp
qed

text \<open>
  C1 as stated fails on the 1920x1080 source: the stage writes a clip 607 pixels wide,
  while \<open>round(1080 * 9/16)\<close> is 608.
\<close>

theorem wide_source_width_not_rounded:
  "map_option clip_size (written_clip (fst (convert_to_shorts_format scenario_env ''in.mp4'' False)))
     = Some (607, 1080)
   \<and> spec_round (1080 * target_aspect_ratio) = 608"
  by (simp add: scenario_trace spec_round_def target_aspect_ratio_def Let_def floor_rat_numeral)

text \<open>
  C2. Whenever the stage crops a source of positive width and height, the rectangle it
  passes to \<open>clip.crop\<close> has a non-negative origin, far coordinates within the source
  dimensions, and is not inverted.
\<close>

theorem crop_rectangle_valid:
  assumes "load env = Inr c" "clip_size c = (w, h)" "0 < w" "0 < h"
    and "(x1, y1, x2, y2) \<in> set (crop_calls (fst (convert_to_shorts_format env video_path cb)))"
  shows "0 \<le> x1 \<and> 0 \<le> y1 \<and> x1 \<le> x2 \<and> y1 \<le> y2 \<and> x2 \<le> of_int w \<and> y2 \<le> of_int h"
proof -
  from assms(5) have "crop_args w h = Inr (Some (x1, y1, x2, y2))"
    unfolding convert_crop_calls [OF assms(1,2)]
    by (auto split: sum.splits option.splits)
  with assms(3,4) show ?thesis by (rule crop_args_bounds)
qed

theorem crop_rectangle_valid_witness:
  "(0, 289 / 2, 400, 1711 / 2) \<in> set (crop_calls (fst (convert_to_shorts_format tall_env ''a.mp4'' False)))
   \<and> (0::rat) \<le> 289 / 2 \<and> (1711 / 2 :: rat) \<le> 1000"
proof -
  have l: "load tall_env = Inr \<lparr>duration = 10, clip_size = (400, 1000)\<rparr>"
    by (simp add: tall_env_def)
  have s: "clip_size \<lparr>duration = 10, clip_size = (400, 1000)\<rparr> = (400, 1000)" by simp
  have m: "(0, 289 / 2, 400, 1711 / 2) \<in> set (crop_calls (fst (convert_to_shorts_format tall_env ''a.mp4'' False)))"
    by (simp add: tall_env_def convert_to_shorts_format_def convert_except_def Let_def
      subclip_def crop_def emit_def crop_args_def target_aspect_ratio_def py_int_def floor_rat_numeral
      basename_def path_join_def PROCESSED_FOLDER_def)
  show ?thesis using m crop_rectangle_valid [OF l s _ _ m] by simp
qed

subsection \<open>Release of the clip\<close>

text \<open>
  C4. The stage calls \<open>clip.close()\<close> on the path that returns the output path only. When
  \<open>write_videofile\<close> raises, the handler reports the error and returns \<open>None\<close>, and the
  clip that \<open>VideoFileClip\<close> opened is never closed.
\<close>

theorem close_skipped_when_write_fails:
  "convert_to_shorts_format disk_full_env ''in.mp4'' True =
     ([Callback 10 ''Loading video...'', VideoFileClip ''in.mp4'',
       Callback 30 ''Checking duration...'', Subclip 0 60,
       Callback 50 ''Checking aspect ratio...'', Crop (1313 / 2) 0 (2527 / 2) 1080,
       Callback 70 ''Rendering video...'',
       WriteVideofile \<lparr>duration = 60, clip_size = (607, 1080)\<rparr> ''processed/shorts_in.mp4'',
       Callback 0 ''Error: No space left on device''],
      None)
   \<and> Close \<notin> set (fst (convert_to_shorts_format disk_full_env ''in.mp4'' True))"
  by (simp add: disk_full_env_def convert_to_shorts_format_def convert_except_def Let_def
      subclip_def crop_def emit_def crop_args_def target_aspect_ratio_def py_int_def floor_rat_numeral
      basename_def path_join_def PROCESSED_FOLDER_def)

subsection \<open>Failures of \<open>download_video\<close>\<close>

lemma download_exception_reported:
  assumes "py_in ''youtube.com'' url \<or> py_in ''youtu.be'' url" "yt_first_stream env = Inl e"
  shows "download_video env url True =
           ([Callback 10 ''Starting download...'', YouTubeStreams url, Callback 0 (''Error: '' @ e)],
            None)"
  using assms by (simp add: download_video_def download_except_def emit_def Let_def)

text \<open>
  C6. When pytube returns no stream, \<open>download_video\<close> returns \<open>None\<close> from inside the
  \<open>try\<close> block (line 61): the only progress event is the 10 percent one, and no event with
  percent 0 and an error message follows. The handler of the same function does emit
  that event when pytube raises (\<open>download_exception_reported\<close>).
\<close>

theorem no_stream_returns_silently:
  "download_video no_stream_env ''https://www.youtube.com/watch?v=abc'' True =
     ([Callback 10 ''Starting download...'', YouTubeStreams ''https://www.youtube.com/watch?v=abc''],
      None)"
  by (simp add: download_video_def no_stream_env_def emit_def Let_def)

subsection \<open>Destination of a generic download\<close>






subsection \<open>Order of the progress events\<close>

lemma download_progress_monotone:
  "progress_monotone (progress_events (fst (download_video env url cb)))"
  by (cases cb)
     (simp_all add: download_video_def download_except_def emit_def Let_def
        split: sum.split option.split)

lemma convert_progress_monotone:
  "progress_monotone (progress_events (fst (convert_to_shorts_format env video_path cb)))"
  by (cases cb)
     (simp_all add: convert_to_shorts_format_def convert_except_def emit_def Let_def
        progress_events_append split: sum.split option.split prod.split)

text \<open>
  C3. \<open>download_video\<close> and \<open>convert_to_shorts_format\<close> report non-decreasing percents
  (\<open>download_progress_monotone\<close>, \<open>convert_progress_monotone\<close>). \<open>upload_video\<close> reports
  30 at the head of every loop iteration (line 253), so a successful upload in two
  chunks reports 10, 20, 30, 65, 30, 100: the percent falls from 65 to 30 without any
  error.
\<close>

theorem upload_progress_falls_back:
  "map fst (progress_events (fst (upload_video two_chunk_env built ''processed/shorts_in.mp4''
       ''title'' [] ''22'' [] ''private'' True))) = [10, 20, 30, 65, 30, 100]
   \<and> snd (upload_video two_chunk_env built ''processed/shorts_in.mp4''
       ''title'' [] ''22'' [] ''private'' True) = Some (True, Response ''video-id'')
   \<and> \<not> progress_monotone (progress_events (fst (upload_video two_chunk_env built
       ''processed/shorts_in.mp4'' ''title'' [] ''22'' [] ''private'' True)))"
  by (simp add: upload_video_def two_chunk_env_def built_def emit_def Let_def upload_except_def
      chunk_values chunk_message_def str_int_def str_nat.simps digit_char_def)

subsection \<open>Progress reported for acknowledged chunks\<close>

lemma ack_percents_loop:
  "ack_percents (fst (upload_loop True answers)) = map chunk_percent (acked answers)"
proof (induction answers rule: acked.induct)
  case 1
  show ?case by (simp add: ack_percents_simps)
next
  case (2 e answers)
  show ?case by (simp add: ack_percents_simps emit_def)
next
  case (3 status response answers)
  then show ?case
    by (cases status; cases response)
       (simp_all add: Let_def ack_percents_simps emit_def chunk_message_def case_prod_beta)
qed

text \<open>
  C5, as the code has it. With a built service, the percents reported for the
  acknowledged chunks are \<open>chunk_percent p\<close> for the progress values \<open>p\<close> the transport
  reported, in order. \<open>chunk_percent p\<close> is \<open>30 + int(p * 100) * 0.7\<close> in double
  arithmetic, so \<open>p\<close> is first truncated to a whole percent between 0 and 100: for
  \<open>p\<close> in \<open>[0, 1]\<close> the value is at most \<open>1e-13\<close> above \<open>30 + p * 70\<close> and less than
  \<open>0.7 + 1e-13\<close> below it. For the progress values 0, 1/4, 1/2, 3/4, 1 the percents are
  30, 47.5, 65, 82.5, 100.
\<close>

theorem chunk_progress_mapping:
  assumes "youtube_service self \<noteq> None" "media_file_upload env = None" "videos_insert env = None"
    and "0 \<le> p" "p \<le> 1"
  shows "ack_percents (fst (upload_video env self file_path title description category_id
           keywords privacy_status True)) = map chunk_percent (acked (next_chunk env))
         \<and> chunk_percent p
               = to_double (30 + to_double (of_int (chunk_progress p) * to_double (7 / 10)))
         \<and> chunk_progress p = py_int (to_double (to_double p * 100))
         \<and> 0 \<le> chunk_progress p \<and> chunk_progress p \<le> 100
         \<and> 30 + p * 70 - 7 / 10 - 1 / 10 ^ 13 < chunk_percent p
         \<and> chunk_percent p \<le> 30 + p * 70 + 1 / 10 ^ 13"
proof -
  obtain tr res where loop: "upload_loop True (next_chunk env) = (tr, res)"
    by (cases "upload_loop True (next_chunk env)")
  have tr: "ack_percents tr = map chunk_percent (acked (next_chunk env))"
    using ack_percents_loop [of "next_chunk env"] loop by simp
  have first: "ack_percents (fst (upload_video env self file_path title description category_id
           keywords privacy_status True)) = map chunk_percent (acked (next_chunk env))"
    using assms(1,2,3) loop tr
    by (cases res; cases "youtube_service self")
       (auto simp: upload_video_def upload_except_def Let_def emit_def ack_percents_simps
          split: sum.split)
  have second: "chunk_percent p
      = to_double (30 + to_double (of_int (chunk_progress p) * to_double (7 / 10)))"
    by (rule chunk_percent_def)
  have third: "chunk_progress p = py_int (to_double (to_double p * 100))"
    by (rule chunk_progress_def)
  show ?thesis using first second third chunk_percent_bounds [OF assms(4,5)] by blast
qed

theorem chunk_progress_mapping_witness:
  "ack_percents (fst (upload_video quarters_env built ''processed/shorts_in.mp4'' ''title'' []
       ''22'' [] ''private'' True)) = [30, 95 / 2, 65, 165 / 2, 100]
   \<and> chunk_progress (1 / 4) = 25 \<and> chunk_percent (1 / 4) = 95 / 2"
proof -
  have a: "youtube_service built \<noteq> None" by (simp add: built_def)
  have b: "media_file_upload quarters_env = None" by (simp add: quarters_env_def)
  have c: "videos_insert quarters_env = None" by (simp add: quarters_env_def)
  have d: "(0::rat) \<le> 1 / 4" by simp
  have e: "(1 / 4 :: rat) \<le> 1" by simp
  have f: "map chunk_percent (acked (next_chunk quarters_env)) = [30, 95 / 2, 65, 165 / 2, 100]"
    by (simp add: quarters_env_def chunk_values)
  show ?thesis
    using chunk_progress_mapping [OF a b c d e, of "''processed/shorts_in.mp4''" "''title''" "[]"
        "''22''" "[]" "''private''"] f
    by (simp add: chunk_values)
qed

text \<open>
  C5 as stated fails for a progress value that is not a whole percent: for \<open>p = 0.005\<close>
  the stage reports 30, while \<open>30 + p * 70\<close> is 30.35.
\<close>

theorem chunk_percent_truncates:
  "ack_percents (fst (upload_video tiny_ack_env built ''processed/shorts_in.mp4'' ''title'' []
       ''22'' [] ''private'' True)) = [30]
   \<and> 30 + (1 / 200) * 70 = (607 / 20 :: rat)"
  by (simp add: upload_video_def tiny_ack_env_def built_def emit_def Let_def upload_except_def
      chunk_values chunk_message_def str_int_def str_nat.simps digit_char_def ack_percents_def)

subsection \<open>Upload before authentication\<close>

text \<open>
  C10. While \<open>youtube_service\<close> is \<open>None\<close>, \<open>upload_video\<close> returns
  \<open>(False, "Upload failed: ...")\<close>: the \<open>AttributeError\<close> of \<open>None.videos()\<close>, or an earlier
  failure of \<open>MediaFileUpload\<close>, is caught by the handler of the stage. No network call
  is made, and with a callback the last event is percent 0 with the error message.
\<close>

theorem upload_without_service:
  assumes "youtube_service self = None"
  shows "snd (upload_video env self file_path title description category_id keywords
             privacy_status cb)
           = Some (False, Message (''Upload failed: '' @
               (case media_file_upload env of Some e \<Rightarrow> e | None \<Rightarrow> none_has_no_videos)))
         \<and> filter is_network_call (fst (upload_video env self file_path title description
             category_id keywords privacy_status cb)) = []
         \<and> (cb \<longrightarrow> last (progress_events (fst (upload_video env self file_path title description
             category_id keywords privacy_status cb)))
               = (0, ''Error: '' @
                   (case media_file_upload env of Some e \<Rightarrow> e | None \<Rightarrow> none_has_no_videos)))"
  using assms
  by (cases "media_file_upload env")
     (simp_all add: upload_video_def upload_except_def Let_def emit_def is_network_call_def)

theorem upload_without_service_witness:
  "snd (upload_video two_chunk_env init_processor ''processed/shorts_in.mp4'' ''title'' []
          ''22'' [] ''private'' True)
     = Some (False, Message (''Upload failed: '' @ none_has_no_videos))
   \<and> last (progress_events (fst (upload_video two_chunk_env init_processor
          ''processed/shorts_in.mp4'' ''title'' [] ''22'' [] ''private'' True)))
     = (0, ''Error: '' @ none_has_no_videos)"
proof -
  have a: "youtube_service init_processor = None" by (simp add: init_processor_def)
  have b: "media_file_upload two_chunk_env = None" by (simp add: two_chunk_env_def)
  show ?thesis
    using upload_without_service [OF a, of two_chunk_env "''processed/shorts_in.mp4''" "''title''"
        "[]" "''22''" "[]" "''private''" True] b
    by simp
qed

subsection \<open>The title guard of \<open>/api/upload\<close>\<close>

lemma titled_request_dispatched:
  "upload_video_route every_path_exists (Inr titled_request) =
     ((200, True, ''Upload started''),
      Some \<lparr>task_video_path = JStr ''processed/shorts_in.mp4'', task_title = JStr ''title'',
            task_description = JStr [], task_tags = JStr [],
            task_privacy_status = JStr ''private''\<rparr>)"
  by (simp add: upload_video_route_def titled_request_def every_path_exists_def
      invalid_parameters_def os_path_exists_def dict_get_def Let_def)

lemma list_path_request_fails:
  "upload_video_route every_path_exists (Inr list_path_request) =
     ((500, False, ''stat: path should be string, bytes, os.PathLike or integer, not list''),
      None)"
  by (simp add: upload_video_route_def list_path_request_def every_path_exists_def
      invalid_parameters_def os_path_exists_def dict_get_def Let_def)

lemma body_without_get_fails:
  "upload_video_route fs (Inr JNull) = ((500, False, no_attribute_get JNull), None)"
  by (simp add: upload_video_route_def)

lemma started_task_has_title:
  assumes "snd (upload_video_route fs get_json) = Some t"
  shows "truthy (task_title t) \<and> truthy (task_video_path t)
         \<and> fst (upload_video_route fs get_json) = (200, True, ''Upload started'')"
  using assms
  by (auto simp: upload_video_route_def invalid_parameters_def Let_def
      split: sum.splits json_value.splits bool.splits if_splits)




subsection \<open>Authentication with a valid stored session\<close>

lemma auth_with_valid_token:
  assumes "token_pickle d = Some c" "valid c"
  shows "authenticate_youtube env self d cj =
           (case json_loads env cj of
              Inl e \<Rightarrow> auth_except self d [JsonLoads cj] e
            | Inr info \<Rightarrow> auth_build env self (d\<lparr>temp_cred_file := Some info\<rparr>) [JsonLoads cj] c)"
  using assms by (simp add: authenticate_youtube_def Let_def split: sum.split)

lemma valid_token_never_asks_consent:
  assumes "token_pickle d = Some c" "valid c"
  shows "RunLocalServer \<notin> set (fst (snd (snd (authenticate_youtube env self d cj))))
         \<and> token_pickle (fst (snd (authenticate_youtube env self d cj))) = Some c"
  using assms
  by (simp add: auth_with_valid_token auth_build_def auth_except_def split: sum.split option.split)

lemma no_token_asks_consent:
  "fst (snd (snd (authenticate_youtube consent_denied_env init_processor
       \<lparr>token_pickle = None, temp_cred_file = None\<rparr> ''{}''))) = [JsonLoads ''{}'', RunLocalServer]"
  by (simp add: authenticate_youtube_def consent_denied_env_def auth_consent_def auth_except_def
      Let_def)

text \<open>
  C9. When \<open>token.pickle\<close> holds valid credentials and the payload parses and the
  service builds, \<open>authenticate_youtube\<close> returns success with the service built over
  the stored credentials, leaves \<open>token.pickle\<close> as it is and makes two external calls
  only, neither of them the consent flow; a second call from the resulting state returns
  the same result and leaves the same state.
\<close>

theorem valid_session_short_circuits:
  assumes "token_pickle d = Some c" "valid c"
    and "json_loads env credentials_json = Inr info" "build_raises env c = None"
  shows "authenticate_youtube env self d credentials_json =
           (self\<lparr>youtube_service := Some (Service c)\<rparr>, d\<lparr>temp_cred_file := None\<rparr>,
            [JsonLoads credentials_json, Build c], True, ''Authentication successful'')
         \<and> authenticate_youtube env (self\<lparr>youtube_service := Some (Service c)\<rparr>)
             (d\<lparr>temp_cred_file := None\<rparr>) credentials_json =
           (self\<lparr>youtube_service := Some (Service c)\<rparr>, d\<lparr>temp_cred_file := None\<rparr>,
            [JsonLoads credentials_json, Build c], True, ''Authentication successful'')
         \<and> token_pickle (d\<lparr>temp_cred_file := None\<rparr>) = Some c
         \<and> RunLocalServer \<notin> set [JsonLoads credentials_json, Build c]"
proof -
  have first: "authenticate_youtube env self d credentials_json =
           (self\<lparr>youtube_service := Some (Service c)\<rparr>, d\<lparr>temp_cred_file := None\<rparr>,
            [JsonLoads credentials_json, Build c], True, ''Authentication successful'')"
    using assms by (simp add: auth_with_valid_token auth_build_def)
  have tok: "token_pickle (d\<lparr>temp_cred_file := None\<rparr>) = Some c" using assms(1) by simp
  have second: "authenticate_youtube env (self\<lparr>youtube_service := Some (Service c)\<rparr>)
             (d\<lparr>temp_cred_file := None\<rparr>) credentials_json =
           (self\<lparr>youtube_service := Some (Service c)\<rparr>, d\<lparr>temp_cred_file := None\<rparr>,
            [JsonLoads credentials_json, Build c], True, ''Authentication successful'')"
    using assms(2,3,4) by (simp add: auth_with_valid_token [OF tok] auth_build_def)
  show ?thesis using first second tok by simp
qed

theorem valid_session_short_circuits_witness:
  "authenticate_youtube consent_denied_env init_processor stored_disk ''{}'' =
     (\<lparr>youtube_service = Some (Service stored_creds)\<rparr>, stored_disk,
      [JsonLoads ''{}'', Build stored_creds], True, ''Authentication successful'')
   \<and> authenticate_youtube consent_denied_env \<lparr>youtube_service = Some (Service stored_creds)\<rparr>
       stored_disk ''{}'' =
     (\<lparr>youtube_service = Some (Service stored_creds)\<rparr>, stored_disk,
      [JsonLoads ''{}'', Build stored_creds], True, ''Authentication successful'')"
proof -
  have a: "token_pickle stored_disk = Some stored_creds" by (simp add: stored_disk_def)
  have b: "valid stored_creds" by (simp add: stored_creds_def)
  have c: "json_loads consent_denied_env ''{}'' = Inr ''{}''" by (simp add: consent_denied_env_def)
  have d: "build_raises consent_denied_env stored_creds = None" by (simp add: consent_denied_env_def)
  have e: "stored_disk\<lparr>temp_cred_file := None\<rparr> = stored_disk" by (simp add: stored_disk_def)
  have f: "init_processor\<lparr>youtube_service := Some (Service stored_creds)\<rparr>
             = \<lparr>youtube_service = Some (Service stored_creds)\<rparr>"
    by (simp add: init_processor_def)
  show ?thesis using valid_session_short_circuits [OF a b c d, of init_processor] e f by simp
qed

end
